theory Spec2Isabelle
  imports Main "HOL-Library.Sublist"
begin

section \<open>Data model\<close>

text \<open>
  The backend keeps three Mongoose collections (exams, exam attempts, submissions) and a
  GridFS bucket holding the exam files. Document identifiers (\<^verbatim>\<open>ObjectId\<close>) are opaque;
  they are modelled as natural numbers. A JavaScript \<^verbatim>\<open>Date\<close> is the number of
  milliseconds since the epoch, an integer. The numeric fields \<^verbatim>\<open>duration\<close> (minutes)
  and \<^verbatim>\<open>timeRemaining\<close> (seconds) are integers.
\<close>

type_synonym objectId = nat
type_synonym date = int

datatype attemptStatus = Started | Paused | Completed | Expired

datatype submissionStatus = Submitted | Graded | Late

datatype role = Student | Teacher | Admin

text \<open>\<^verbatim>\<open>models/Exam.js\<close>: the paths that the schema declares.\<close>

record exam =
  exam_id :: objectId
  title :: string
  examFileId :: objectId
  duration :: int
  createdBy :: objectId
  isActive :: bool
  createdAt :: date

text \<open>
  The routes also read \<^verbatim>\<open>exam.examPdfUrl\<close>, the field in which an older version
  kept a Cloudinary URL. The schema declares no such path and is strict, so a document
  read through the model has no such property: the expression is \<^verbatim>\<open>undefined\<close> for
  every exam.
\<close>

definition examPdfUrl :: "exam \<Rightarrow> string option" where
  "examPdfUrl ex = None"

text \<open>\<^verbatim>\<open>models/ExamAttempt.js\<close>.\<close>

record examAttempt =
  attempt_id :: objectId
  studentId :: objectId
  examId :: objectId
  startedAt :: date
  lastAccessedAt :: date
  timeRemaining :: int
  status :: attemptStatus
  isCompleted :: bool

text \<open>\<^verbatim>\<open>models/Submission.js\<close>.\<close>

record submission =
  submission_id :: objectId
  sub_studentId :: objectId
  sub_examId :: objectId
  answerUrl :: string
  submittedAt :: date
  sub_status :: submissionStatus

text \<open>A file document of the GridFS bucket \<^verbatim>\<open>exams\<close>, as \<^verbatim>\<open>bucket.find\<close> returns it.\<close>

record gridFile =
  file_id :: objectId
  contentType :: "string option"
  filename :: "string option"

text \<open>
  The persistent state. \<^verbatim>\<open>gfsBucket\<close> is the module-level handle of
  \<^verbatim>\<open>config/gridfs.js\<close>, undefined until \<^verbatim>\<open>initGridFS\<close> has run. \<^verbatim>\<open>teachers\<close>
  holds the identifiers of the teacher accounts, which \<^verbatim>\<open>populate('createdBy')\<close> reads.
\<close>

record db =
  exams :: "exam list"
  examAttempts :: "examAttempt list"
  submissions :: "submission list"
  teachers :: "objectId list"
  gfsBucket :: "gridFile list option"

text \<open>
  Every early \<^verbatim>\<open>return res.status(...)\<close> of the handlers, one constructor for each
  distinct message. \<^verbatim>\<open>ServerError\<close> is the \<^verbatim>\<open>catch\<close> branch (status 500).
\<close>

datatype error =
    ExamNotFound
  | AlreadySubmitted
  | AlreadyCompleted
  | AttemptNotFound
  | AnswerFileRequired
  | DuplicateSubmission
  | InvalidFileId
  | ExamFileNotFound
  | ExamNotActive
  | GridFSNotInitialized
  | FileNotInGridFS
  | ExamNotFoundOrNoPermission
  | ExamAlreadyCancelled
  | ExamAlreadyActive
  | ServerError

fun httpStatus :: "error \<Rightarrow> nat" where
  "httpStatus ExamNotFound = 404"
| "httpStatus AlreadySubmitted = 400"
| "httpStatus AlreadyCompleted = 400"
| "httpStatus AttemptNotFound = 404"
| "httpStatus AnswerFileRequired = 400"
| "httpStatus DuplicateSubmission = 400"
| "httpStatus InvalidFileId = 400"
| "httpStatus ExamFileNotFound = 404"
| "httpStatus ExamNotActive = 403"
| "httpStatus GridFSNotInitialized = 500"
| "httpStatus FileNotInGridFS = 404"
| "httpStatus ExamNotFoundOrNoPermission = 404"
| "httpStatus ExamAlreadyCancelled = 400"
| "httpStatus ExamAlreadyActive = 400"
| "httpStatus ServerError = 500"

section \<open>Collection access\<close>

text \<open>
  \<^verbatim>\<open>findOne\<close> returns the first document, in collection order, that matches the
  filter; \<^verbatim>\<open>findById\<close> is \<^verbatim>\<open>findOne\<close> on the identifier.
\<close>

definition Exam_findById :: "db \<Rightarrow> objectId \<Rightarrow> exam option" where
  "Exam_findById d i = find (\<lambda>e. exam_id e = i) (exams d)"

definition ExamAttempt_findOne :: "(examAttempt \<Rightarrow> bool) \<Rightarrow> db \<Rightarrow> examAttempt option" where
  "ExamAttempt_findOne flt d = find flt (examAttempts d)"

definition Submission_findOne :: "db \<Rightarrow> objectId \<Rightarrow> objectId \<Rightarrow> submission option" where
  "Submission_findOne d sid eid =
     find (\<lambda>s. sub_studentId s = sid \<and> sub_examId s = eid) (submissions d)"

text \<open>
  \<^verbatim>\<open>attempt.save()\<close> on a document that was read from the collection writes it back
  under its \<^verbatim>\<open>_id\<close>.
\<close>

definition ExamAttempt_save :: "db \<Rightarrow> examAttempt \<Rightarrow> db" where
  "ExamAttempt_save d a =
     d\<lparr>examAttempts := map (\<lambda>b. if attempt_id b = attempt_id a then a else b) (examAttempts d)\<rparr>"

text \<open>
  \<^verbatim>\<open>save()\<close> on a new document inserts it. The insert is refused (duplicate key, the
  handler's \<^verbatim>\<open>catch\<close> answers 500) when the \<^verbatim>\<open>_id\<close> is taken or when the unique
  index of the schema on \<^verbatim>\<open>{studentId, examId}\<close> would be violated.
\<close>

definition ExamAttempt_insert :: "db \<Rightarrow> examAttempt \<Rightarrow> db option" where
  "ExamAttempt_insert d a =
     (if attempt_id a \<in> set (map attempt_id (examAttempts d))
         \<or> (studentId a, examId a) \<in> set (map (\<lambda>b. (studentId b, examId b)) (examAttempts d))
      then None
      else Some (d\<lparr>examAttempts := examAttempts d @ [a]\<rparr>))"

definition Submission_insert :: "db \<Rightarrow> submission \<Rightarrow> db option" where
  "Submission_insert d s =
     (if submission_id s \<in> set (map submission_id (submissions d))
         \<or> (sub_studentId s, sub_examId s)
              \<in> set (map (\<lambda>b. (sub_studentId b, sub_examId b)) (submissions d))
      then None
      else Some (d\<lparr>submissions := submissions d @ [s]\<rparr>))"

text \<open>\<^verbatim>\<open>Exam.findByIdAndUpdate(examId, { isActive: v })\<close>.\<close>

definition Exam_setActive :: "db \<Rightarrow> objectId \<Rightarrow> bool \<Rightarrow> db" where
  "Exam_setActive d i v =
     d\<lparr>exams := map (\<lambda>e. if exam_id e = i then e\<lparr>isActive := v\<rparr> else e) (exams d)\<rparr>"

section \<open>Exam attempts (\<^verbatim>\<open>routes/examAttempts.js\<close>)\<close>

text \<open>
  The handlers run behind \<^verbatim>\<open>verifyToken\<close> and \<^verbatim>\<open>isStudent\<close>, which supply the
  student's identifier; request identifiers arrive validated. \<^verbatim>\<open>now\<close> is the value of
  \<^verbatim>\<open>new Date()\<close> during the request, \<^verbatim>\<open>newId\<close> the identifier Mongoose generates
  for a new document. Each handler returns the new state and the response; the attempt
  record in a response carries the fields that the JSON body reports. The new remaining
  time of \<^verbatim>\<open>PUT /:attemptId/time\<close> is taken as a number of seconds; a completed
  attempt is recognised by \<^verbatim>\<open>isCompleted\<close> in \<^verbatim>\<open>/start\<close> and by its status in
  \<^verbatim>\<open>GET /:examId\<close>.
\<close>

definition start ::
  "db \<Rightarrow> date \<Rightarrow> objectId \<Rightarrow> objectId \<Rightarrow> objectId \<Rightarrow> db \<times> (error + examAttempt)" where
  "start d now newId sid eid =
     (case Exam_findById d eid of
        None \<Rightarrow> (d, Inl ExamNotFound)
      | Some ex \<Rightarrow>
          (case Submission_findOne d sid eid of
             Some existingSubmission \<Rightarrow> (d, Inl AlreadySubmitted)
           | None \<Rightarrow>
               (case ExamAttempt_findOne (\<lambda>a. studentId a = sid \<and> examId a = eid) d of
                  Some attempt \<Rightarrow>
                    if isCompleted attempt then (d, Inl AlreadyCompleted)
                    else
                      let attempt' = attempt\<lparr>lastAccessedAt := now, status := Started\<rparr>
                      in (ExamAttempt_save d attempt', Inr attempt')
                | None \<Rightarrow>
                    let attempt = \<lparr>attempt_id = newId, studentId = sid, examId = eid,
                                   startedAt = now, lastAccessedAt = now,
                                   timeRemaining = duration ex * 60,
                                   status = Started, isCompleted = False\<rparr>
                    in (case ExamAttempt_insert d attempt of
                          None \<Rightarrow> (d, Inl ServerError)
                        | Some d' \<Rightarrow> (d', Inr attempt)))))"

definition getStatus ::
  "db \<Rightarrow> date \<Rightarrow> objectId \<Rightarrow> objectId \<Rightarrow> db \<times> examAttempt option" where
  "getStatus d now sid eid =
     (case ExamAttempt_findOne (\<lambda>a. studentId a = sid \<and> examId a = eid) d of
        None \<Rightarrow> (d, None)
      | Some attempt \<Rightarrow>
          let timeElapsed = (now - startedAt attempt) div 1000;
              remainingTime = max 0 (timeRemaining attempt - timeElapsed)
          in if remainingTime \<le> 0 \<and> status attempt \<noteq> Completed
             then
               let attempt' = attempt\<lparr>status := Expired, timeRemaining := 0\<rparr>
               in (ExamAttempt_save d attempt', Some (attempt'\<lparr>timeRemaining := remainingTime\<rparr>))
             else (d, Some (attempt\<lparr>timeRemaining := remainingTime\<rparr>)))"

definition updateTime ::
  "db \<Rightarrow> date \<Rightarrow> objectId \<Rightarrow> objectId \<Rightarrow> int \<Rightarrow> db \<times> (error + examAttempt)" where
  "updateTime d now aid sid newTime =
     (case ExamAttempt_findOne (\<lambda>a. attempt_id a = aid \<and> studentId a = sid) d of
        None \<Rightarrow> (d, Inl AttemptNotFound)
      | Some attempt \<Rightarrow>
          let attempt1 = attempt\<lparr>timeRemaining := max 0 newTime, lastAccessedAt := now\<rparr>;
              attempt2 = (if timeRemaining attempt1 \<le> 0 then attempt1\<lparr>status := Expired\<rparr>
                          else attempt1)
          in (ExamAttempt_save d attempt2, Inr attempt2))"

definition complete :: "db \<Rightarrow> objectId \<Rightarrow> objectId \<Rightarrow> db \<times> (error + unit)" where
  "complete d aid sid =
     (case ExamAttempt_findOne (\<lambda>a. attempt_id a = aid \<and> studentId a = sid) d of
        None \<Rightarrow> (d, Inl AttemptNotFound)
      | Some attempt \<Rightarrow>
          (ExamAttempt_save d (attempt\<lparr>status := Completed, isCompleted := True\<rparr>), Inr ()))"

section \<open>Submissions (\<^verbatim>\<open>routes/submissions.js\<close>)\<close>

text \<open>
  \<^verbatim>\<open>req.file\<close> is the uploaded answer file (its path), absent when the request has
  none. \<^verbatim>\<open>uploadAnswerFile\<close> is the Cloudinary collaborator of
  \<^verbatim>\<open>config/cloudinary.js\<close>: it returns the URL of the stored file or throws, which the
  handler's \<^verbatim>\<open>catch\<close> turns into status 500. The schema requires a non-empty
  \<^verbatim>\<open>answerUrl\<close>; a new submission gets the schema defaults \<^verbatim>\<open>submittedAt = now\<close> and
  \<^verbatim>\<open>status = 'submitted'\<close>.
\<close>

definition submit ::
  "db \<Rightarrow> date \<Rightarrow> objectId \<Rightarrow> objectId \<Rightarrow> string option \<Rightarrow> objectId
     \<Rightarrow> (string \<Rightarrow> string option) \<Rightarrow> db \<times> (error + submission)" where
  "submit d now newId sid file eid uploadAnswerFile =
     (case file of
        None \<Rightarrow> (d, Inl AnswerFileRequired)
      | Some f \<Rightarrow>
          (case Exam_findById d eid of
             None \<Rightarrow> (d, Inl ExamNotFound)
           | Some ex \<Rightarrow>
               (case Submission_findOne d sid eid of
                  Some existingSubmission \<Rightarrow> (d, Inl DuplicateSubmission)
                | None \<Rightarrow>
                    (case uploadAnswerFile f of
                       None \<Rightarrow> (d, Inl ServerError)
                     | Some url \<Rightarrow>
                         if url = [] then (d, Inl ServerError)
                         else
                           let sub = \<lparr>submission_id = newId, sub_studentId = sid,
                                      sub_examId = eid, answerUrl = url,
                                      submittedAt = now, sub_status = Submitted\<rparr>
                           in (case Submission_insert d sub of
                                 None \<Rightarrow> (d, Inl ServerError)
                               | Some d' \<Rightarrow> (d', Inr sub))))))"

section \<open>Exams (\<^verbatim>\<open>routes/exams.js\<close>)\<close>

subsection \<open>Serving an exam file\<close>

text \<open>
  \<^verbatim>\<open>GET /file/:id\<close>. The parameter is a string. \<^verbatim>\<open>castObjectId\<close> stands for the
  library pair \<^verbatim>\<open>mongoose.Types.ObjectId.isValid\<close> and \<^verbatim>\<open>new ObjectId(...)\<close>: it is
  \<^verbatim>\<open>None\<close> on a string that is not a valid identifier and the identifier otherwise.
  The answer is a redirect or the headers of the piped GridFS download stream.
\<close>

datatype fileResponse =
    Redirect string
  | Stream objectId string string string

text \<open>JavaScript's \<^verbatim>\<open>s || dflt\<close> on a string that may be undefined: the empty string is falsy.\<close>

definition orDefault :: "string option \<Rightarrow> string \<Rightarrow> string" where
  "orDefault s dflt = (case s of None \<Rightarrow> dflt | Some v \<Rightarrow> if v = [] then dflt else v)"

definition streamFromGridFS :: "db \<Rightarrow> exam \<Rightarrow> objectId \<Rightarrow> error + fileResponse" where
  "streamFromGridFS d ex oid =
     (case gfsBucket d of
        None \<Rightarrow> Inl GridFSNotInitialized
      | Some bucket \<Rightarrow>
          (case filter (\<lambda>f. file_id f = oid) bucket of
             [] \<Rightarrow> Inl FileNotInGridFS
           | fileMetadata # rest \<Rightarrow>
               let ctype = orDefault (contentType fileMetadata) ''application/pdf'';
                   originalFilename = orDefault (filename fileMetadata) (title ex @ ''.pdf'')
               in Inr (Stream oid ctype
                         (''inline; filename='' @ [CHR 0x22] @ originalFilename @ [CHR 0x22])
                         ''public, max-age=3600'')))"

text \<open>
  \<^verbatim>\<open>exam.examPdfUrl && exam.examPdfUrl.startsWith('http')\<close>, the test of lines
  111 to 114: the URL to redirect to, when the test succeeds. As \<^verbatim>\<open>exam.examPdfUrl\<close>
  is undefined on every document of the schema, the test never succeeds, and the second
  alternative of the query, \<^verbatim>\<open>{ examPdfUrl: fileId }\<close>, matches no stored exam.
\<close>

definition legacyUrl :: "exam \<Rightarrow> string option" where
  "legacyUrl ex =
     (case examPdfUrl ex of
        None \<Rightarrow> None
      | Some u \<Rightarrow> if prefix ''http'' u then Some u else None)"

definition serveFile ::
  "(string \<Rightarrow> objectId option) \<Rightarrow> db \<Rightarrow> string \<Rightarrow> error + fileResponse" where
  "serveFile castObjectId d fileId =
     (if prefix ''http'' fileId then Inr (Redirect fileId)
      else
        (case castObjectId fileId of
           None \<Rightarrow> Inl InvalidFileId
         | Some oid \<Rightarrow>
             (case find (\<lambda>e. examFileId e = oid \<or> examPdfUrl e = Some fileId) (exams d) of
                None \<Rightarrow> Inl ExamFileNotFound
              | Some ex \<Rightarrow>
                  (case legacyUrl ex of
                     Some u \<Rightarrow> Inr (Redirect u)
                   | None \<Rightarrow>
                       if \<not> isActive ex then Inl ExamNotActive
                       else streamFromGridFS d ex oid))))"

subsection \<open>Listing exams\<close>

text \<open>
  \<^verbatim>\<open>GET /\<close>, behind \<^verbatim>\<open>verifyToken\<close> only. The query is built from the role of the
  token; the result is sorted by \<^verbatim>\<open>createdAt\<close>, newest first (exams of equal
  \<^verbatim>\<open>createdAt\<close> are kept in collection order here). The response reads
  \<^verbatim>\<open>exam.createdBy._id\<close> of each populated exam, which throws (status 500) when the
  creator's account is missing.
\<close>

definition examQuery :: "role \<Rightarrow> objectId \<Rightarrow> exam \<Rightarrow> bool" where
  "examQuery r uid e =
     (if r = Student then isActive e
      else if r = Teacher then createdBy e = uid \<and> isActive e
      else True)"

definition listExams :: "db \<Rightarrow> role \<Rightarrow> objectId \<Rightarrow> error + exam list" where
  "listExams d r uid =
     (let found = sort_key (\<lambda>e. - createdAt e) (filter (examQuery r uid) (exams d))
      in if list_all (\<lambda>e. createdBy e \<in> set (teachers d)) found
         then Inr found else Inl ServerError)"

subsection \<open>Cancelling and reactivating\<close>

text \<open>Both handlers run behind \<^verbatim>\<open>verifyToken\<close> and \<^verbatim>\<open>isTeacher\<close>.\<close>

definition cancelExam :: "db \<Rightarrow> objectId \<Rightarrow> objectId \<Rightarrow> db \<times> (error + exam)" where
  "cancelExam d eid teacherId =
     (case find (\<lambda>e. exam_id e = eid \<and> createdBy e = teacherId) (exams d) of
        None \<Rightarrow> (d, Inl ExamNotFoundOrNoPermission)
      | Some ex \<Rightarrow>
          if \<not> isActive ex then (d, Inl ExamAlreadyCancelled)
          else (Exam_setActive d eid False, Inr ex))"

definition activateExam :: "db \<Rightarrow> objectId \<Rightarrow> objectId \<Rightarrow> db \<times> (error + exam)" where
  "activateExam d eid teacherId =
     (case find (\<lambda>e. exam_id e = eid \<and> createdBy e = teacherId) (exams d) of
        None \<Rightarrow> (d, Inl ExamNotFoundOrNoPermission)
      | Some ex \<Rightarrow>
          if isActive ex then (d, Inl ExamAlreadyActive)
          else (Exam_setActive d eid True, Inr ex))"

section \<open>Sequences of requests\<close>

text \<open>
  The requests that write the attempt and submission collections or an exam's
  \<^verbatim>\<open>isActive\<close> flag, each with the values the environment supplies during it, and the
  state after serving a sequence of them one at a time. The remaining routes of the
  repository (\<^verbatim>\<open>POST /api/exams\<close>, registration and login) add exams and accounts and
  write none of these.
\<close>

datatype request =
    ReqStart date objectId objectId objectId
  | ReqGetStatus date objectId objectId
  | ReqUpdateTime date objectId objectId int
  | ReqComplete objectId objectId
  | ReqSubmit date objectId objectId "string option" objectId "string \<Rightarrow> string option"
  | ReqCancelExam objectId objectId
  | ReqActivateExam objectId objectId

fun step :: "db \<Rightarrow> request \<Rightarrow> db" where
  "step d (ReqStart now newId sid eid) = fst (start d now newId sid eid)"
| "step d (ReqGetStatus now sid eid) = fst (getStatus d now sid eid)"
| "step d (ReqUpdateTime now aid sid t) = fst (updateTime d now aid sid t)"
| "step d (ReqComplete aid sid) = fst (complete d aid sid)"
| "step d (ReqSubmit now newId sid file eid up) = fst (submit d now newId sid file eid up)"
| "step d (ReqCancelExam eid tid) = fst (cancelExam d eid tid)"
| "step d (ReqActivateExam eid tid) = fst (activateExam d eid tid)"

definition run :: "db \<Rightarrow> request list \<Rightarrow> db" where
  "run d rs = foldl step d rs"

text \<open>The attempt stored under an identifier.\<close>

definition attemptById :: "db \<Rightarrow> objectId \<Rightarrow> examAttempt option" where
  "attemptById d i = find (\<lambda>a. attempt_id a = i) (examAttempts d)"

text \<open>It is completed and belongs to the given student and exam.\<close>

definition completedRow :: "db \<Rightarrow> objectId \<Rightarrow> objectId \<Rightarrow> objectId \<Rightarrow> bool" where
  "completedRow d i sid eid =
     (case attemptById d i of
        None \<Rightarrow> False
      | Some c \<Rightarrow> isCompleted c \<and> studentId c = sid \<and> examId c = eid)"

text \<open>
  The unique indexes of the two collections: \<^verbatim>\<open>_id\<close>, and \<^verbatim>\<open>{studentId, examId}\<close>
  declared by each schema.
\<close>

definition attemptIndexes :: "db \<Rightarrow> bool" where
  "attemptIndexes d \<longleftrightarrow>
     distinct (map attempt_id (examAttempts d))
     \<and> distinct (map (\<lambda>a. (studentId a, examId a)) (examAttempts d))"

definition submissionIndexes :: "db \<Rightarrow> bool" where
  "submissionIndexes d \<longleftrightarrow>
     distinct (map submission_id (submissions d))
     \<and> distinct (map (\<lambda>s. (sub_studentId s, sub_examId s)) (submissions d))"

section \<open>Example states\<close>

text \<open>
  One exam of sixty minutes created by teacher 7, whose file is in the bucket; student 5;
  a fresh attempt of student 5 at time 0.
\<close>

definition exam1 :: exam where
  "exam1 = \<lparr>exam_id = 1, title = ''Algebra'', examFileId = 100,
             duration = 60, createdBy = 7, isActive = True, createdAt = 1000\<rparr>"

definition db0 :: db where
  "db0 = \<lparr>exams = [exam1], examAttempts = [], submissions = [], teachers = [7, 8],
           gfsBucket = Some [\<lparr>file_id = 100, contentType = Some ''application/pdf'',
                               filename = Some ''exam_1_algebra.pdf''\<rparr>]\<rparr>"

definition attempt1 :: examAttempt where
  "attempt1 = \<lparr>attempt_id = 10, studentId = 5, examId = 1, startedAt = 0,
                lastAccessedAt = 0, timeRemaining = 3600, status = Started,
                isCompleted = False\<rparr>"

definition db1 :: db where
  "db1 = db0\<lparr>examAttempts := [attempt1]\<rparr>"

text \<open>
  The upload collaborator answering with a URL, the state after student 5 has also
  submitted an answer, and the attempt once completed.
\<close>

definition uploadOk :: "string \<Rightarrow> string option" where
  "uploadOk f = Some (''https://res.cloudinary.com/exam-tester/answers/'' @ f)"

definition sub1 :: submission where
  "sub1 = \<lparr>submission_id = 20, sub_studentId = 5, sub_examId = 1,
            answerUrl = ''https://res.cloudinary.com/exam-tester/answers/answer.pdf'',
            submittedAt = 1000, sub_status = Submitted\<rparr>"

definition db2 :: db where
  "db2 = db1\<lparr>submissions := [sub1]\<rparr>"

definition attempt1Completed :: examAttempt where
  "attempt1Completed = attempt1\<lparr>status := Completed, isCompleted := True\<rparr>"

text \<open>
  The state after the student has reported 1200 seconds left at time 5000, and the state
  after the student has completed the attempt.
\<close>

definition attempt1Updated :: examAttempt where
  "attempt1Updated = attempt1\<lparr>timeRemaining := 1200, lastAccessedAt := 5000\<rparr>"

definition db1Updated :: db where
  "db1Updated = db1\<lparr>examAttempts := [attempt1Updated]\<rparr>"

definition db1Completed :: db where
  "db1Completed = db1\<lparr>examAttempts := [attempt1Completed]\<rparr>"

text \<open>
  Two more exams of teacher 7, both cancelled. \<^verbatim>\<open>castExample\<close> reads the
  hexadecimal strings of the three file identifiers.
\<close>

definition exam2 :: exam where
  "exam2 = \<lparr>exam_id = 2, title = ''Geometry'', examFileId = 101,
             duration = 90, createdBy = 7, isActive = False, createdAt = 2000\<rparr>"

definition exam3 :: exam where
  "exam3 = \<lparr>exam_id = 3, title = ''History'', examFileId = 102,
             duration = 30, createdBy = 7, isActive = False, createdAt = 500\<rparr>"

definition db3 :: db where
  "db3 = db0\<lparr>exams := [exam1, exam2, exam3]\<rparr>"


section \<open>Lemmas on the collections\<close>

lemma find_key_distinct:
  assumes "distinct (map f xs)" and "a \<in> set xs"
  shows "find (\<lambda>b. f b = f a \<and> Q b) xs = (if Q a then Some a else None)"
  using assms
proof (induction xs)
  case Nil
  then show ?case by simp
next
  case (Cons x xs)
  then show ?case by (auto simp: image_iff find_None_iff)
qed

lemmas find_id_distinct = find_key_distinct [where f = attempt_id]

lemma find_id_saved:
  assumes "a \<in> set xs" and "attempt_id a' = attempt_id a"
  shows "find (\<lambda>b. attempt_id b = attempt_id a)
           (map (\<lambda>b. if attempt_id b = attempt_id a' then a' else b) xs) = Some a'"
  using assms by (induction xs) auto

lemma find_saved:
  assumes "distinct (map attempt_id xs)" and "find P xs = Some a"
    and "attempt_id a' = attempt_id a" and "P a'"
  shows "find P (map (\<lambda>b. if attempt_id b = attempt_id a' then a' else b) xs) = Some a'"
  using assms
proof (induction xs)
  case Nil
  then show ?case by simp
next
  case (Cons x xs)
  show ?case
  proof (cases "P x")
    case True
    with Cons.prems show ?thesis by simp
  next
    case False
    with Cons.prems have fa: "find P xs = Some a" by simp
    then have "a \<in> set xs" by (auto simp: find_Some_iff)
    with Cons.prems(1) have "attempt_id x \<noteq> attempt_id a" by (auto simp: image_iff)
    with False Cons fa show ?thesis by simp
  qed
qed

lemma save_twice:
  "ExamAttempt_save (ExamAttempt_save d a) a = ExamAttempt_save d a"
  by (simp add: ExamAttempt_save_def comp_def)

lemma save_keeps_key:
  assumes "distinct (map attempt_id xs)" and "a \<in> set xs"
    and "attempt_id a' = attempt_id a" and "f a' = f a"
  shows "map f (map (\<lambda>b. if attempt_id b = attempt_id a' then a' else b) xs) = map f xs"
proof -
  have "b \<in> set xs \<Longrightarrow> attempt_id b = attempt_id a \<Longrightarrow> b = a" for b
    using assms(1,2) by (meson distinct_map inj_onD)
  with assms(3,4) show ?thesis by (auto simp: comp_def)
qed

lemma filter_unique_key:
  assumes "distinct (map f xs)" and "a \<in> set xs"
  shows "filter (\<lambda>b. f b = f a) xs = [a]"
  using assms
proof (induction xs)
  case Nil
  then show ?case by simp
next
  case (Cons x xs)
  show ?case
  proof (cases "x = a")
    case True
    with Cons.prems(1) have "\<forall>b\<in>set xs. f b \<noteq> f a" by (auto simp: image_iff)
    then have "filter (\<lambda>b. f b = f a) xs = []" by (simp add: filter_empty_conv)
    with True show ?thesis by simp
  next
    case False
    with Cons.prems have "a \<in> set xs" "f x \<noteq> f a" by (auto simp: image_iff)
    with Cons show ?thesis by simp
  qed
qed

lemma find_filter_single:
  "filter P xs = [a] \<Longrightarrow> find P xs = Some a"
  by (induction xs) (auto split: if_splits simp: filter_empty_conv)

lemma save_keeps_indexes:
  assumes "attemptIndexes d" and "a \<in> set (examAttempts d)"
    and "attempt_id a' = attempt_id a" and "studentId a' = studentId a"
    and "examId a' = examId a"
  shows "attemptIndexes (ExamAttempt_save d a')"
    and "map attempt_id (examAttempts (ExamAttempt_save d a')) = map attempt_id (examAttempts d)"
    and "a' \<in> set (examAttempts (ExamAttempt_save d a'))"
proof -
  from assms(1) have di: "distinct (map attempt_id (examAttempts d))"
    by (simp add: attemptIndexes_def)
  have ids: "map attempt_id (examAttempts (ExamAttempt_save d a')) = map attempt_id (examAttempts d)"
    using save_keeps_key [OF di assms(2,3), of attempt_id] assms(3)
    by (simp add: ExamAttempt_save_def)
  have prs: "map (\<lambda>b. (studentId b, examId b)) (examAttempts (ExamAttempt_save d a'))
       = map (\<lambda>b. (studentId b, examId b)) (examAttempts d)"
    using save_keeps_key [OF di assms(2,3), of "\<lambda>b. (studentId b, examId b)"] assms(4,5)
    by (simp add: ExamAttempt_save_def)
  from assms(1) ids prs show "attemptIndexes (ExamAttempt_save d a')"
    by (simp add: attemptIndexes_def)
  from ids show "map attempt_id (examAttempts (ExamAttempt_save d a')) = map attempt_id (examAttempts d)" .
  from assms(2,3) show "a' \<in> set (examAttempts (ExamAttempt_save d a'))"
    by (auto simp: ExamAttempt_save_def image_iff intro!: bexI [of _ a])
qed

lemma pair_rows:
  assumes "attemptIndexes d" and "a \<in> set (examAttempts d)"
  shows "filter (\<lambda>b. studentId b = studentId a \<and> examId b = examId a) (examAttempts d) = [a]"
proof -
  from assms(1) have "distinct (map (\<lambda>b. (studentId b, examId b)) (examAttempts d))"
    by (simp add: attemptIndexes_def)
  from filter_unique_key [OF this assms(2)] show ?thesis by simp
qed

lemma start_success:
  assumes "attemptIndexes d" and "start d now newId sid eid = (d1, Inr a1)"
  shows "attemptIndexes d1"
    and "filter (\<lambda>b. studentId b = sid \<and> examId b = eid) (examAttempts d1) = [a1]"
    and "status a1 = Started" and "\<not> isCompleted a1" and "lastAccessedAt a1 = now"
    and "exams d1 = exams d" and "submissions d1 = submissions d"
    and "Exam_findById d eid \<noteq> None" and "Submission_findOne d sid eid = None"
proof -
  let ?P = "\<lambda>b. studentId b = sid \<and> examId b = eid"
  from assms(2) obtain ex where ex: "Exam_findById d eid = Some ex"
    by (auto simp: start_def split: option.splits)
  from assms(2) have nosub: "Submission_findOne d sid eid = None"
    by (auto simp: start_def split: option.splits)
  have all: "attemptIndexes d1 \<and> filter ?P (examAttempts d1) = [a1] \<and> status a1 = Started
      \<and> \<not> isCompleted a1 \<and> lastAccessedAt a1 = now \<and> exams d1 = exams d
      \<and> submissions d1 = submissions d"
  proof (cases "ExamAttempt_findOne ?P d")
    case None
    let ?n = "\<lparr>attempt_id = newId, studentId = sid, examId = eid, startedAt = now,
               lastAccessedAt = now, timeRemaining = duration ex * 60,
               status = Started, isCompleted = False\<rparr>"
    from None have nomatch: "filter ?P (examAttempts d) = []"
      by (auto simp: ExamAttempt_findOne_def find_None_iff filter_empty_conv)
    from assms(2) ex nosub None have ins: "ExamAttempt_insert d ?n = Some d1" and a1: "a1 = ?n"
      by (auto simp: start_def Let_def split: option.splits)
    from ins have d1: "d1 = d\<lparr>examAttempts := examAttempts d @ [?n]\<rparr>"
      and fresh: "newId \<notin> attempt_id ` set (examAttempts d)"
        "(sid, eid) \<notin> (\<lambda>b. (studentId b, examId b)) ` set (examAttempts d)"
      by (auto simp: ExamAttempt_insert_def split: if_splits)
    from assms(1) fresh have "attemptIndexes d1"
      by (simp add: attemptIndexes_def d1)
    with nomatch show ?thesis by (simp add: d1 a1)
  next
    case (Some a)
    let ?a' = "a\<lparr>lastAccessedAt := now, status := Started\<rparr>"
    from Some have mem: "a \<in> set (examAttempts d)" and Pa: "?P a"
      by (auto simp: ExamAttempt_findOne_def find_Some_iff)
    from assms(2) ex nosub Some have nc: "\<not> isCompleted a"
      and d1: "d1 = ExamAttempt_save d ?a'" and a1: "a1 = ?a'"
      by (auto simp: start_def Let_def split: if_splits)
    have idx: "attemptIndexes d1" and mem': "?a' \<in> set (examAttempts d1)"
      using save_keeps_indexes [OF assms(1) mem, of ?a'] by (simp_all add: d1)
    from pair_rows [OF idx mem'] Pa have "filter ?P (examAttempts d1) = [?a']" by simp
    with idx nc show ?thesis by (simp add: a1 d1 ExamAttempt_save_def)
  qed
  from all ex nosub show "attemptIndexes d1"
    and "filter (\<lambda>b. studentId b = sid \<and> examId b = eid) (examAttempts d1) = [a1]"
    and "status a1 = Started" and "\<not> isCompleted a1" and "lastAccessedAt a1 = now"
    and "exams d1 = exams d" and "submissions d1 = submissions d"
    and "Exam_findById d eid \<noteq> None" and "Submission_findOne d sid eid = None"
    by simp_all
qed

lemma attemptById_save:
  "attemptById (ExamAttempt_save d a') i
     = map_option (\<lambda>b. if attempt_id a' = i then a' else b) (attemptById d i)"
proof -
  have "find (\<lambda>a. attempt_id a = i) (map (\<lambda>b. if attempt_id b = attempt_id a' then a' else b) xs)
      = map_option (\<lambda>b. if attempt_id a' = i then a' else b) (find (\<lambda>a. attempt_id a = i) xs)" for xs
    by (induction xs) auto
  then show ?thesis by (simp add: attemptById_def ExamAttempt_save_def)
qed

lemma attemptById_mem:
  assumes "attemptIndexes d" and "b \<in> set (examAttempts d)"
  shows "attemptById d (attempt_id b) = Some b"
proof -
  from assms(1) have "distinct (map attempt_id (examAttempts d))"
    by (simp add: attemptIndexes_def)
  from find_id_distinct [OF this assms(2), of "\<lambda>b. True"] show ?thesis
    by (simp add: attemptById_def)
qed

lemma attemptById_set:
  "attemptById d i = Some c \<Longrightarrow> c \<in> set (examAttempts d) \<and> attempt_id c = i"
  by (auto simp: attemptById_def find_Some_iff)

lemma save_keeps_completed:
  assumes "attemptIndexes d" and "b \<in> set (examAttempts d)"
    and "attempt_id a' = attempt_id b" and "studentId a' = studentId b"
    and "examId a' = examId b" and "isCompleted b \<longrightarrow> isCompleted a'"
    and "completedRow d i sid eid"
  shows "completedRow (ExamAttempt_save d a') i sid eid"
proof -
  from assms(7) obtain c where c: "attemptById d i = Some c" "isCompleted c"
    "studentId c = sid" "examId c = eid"
    by (auto simp: completedRow_def split: option.splits)
  show ?thesis
  proof (cases "attempt_id a' = i")
    case True
    with assms(3) attemptById_mem [OF assms(1,2)] c(1) have "b = c" by simp
    with True c assms(4,5,6) show ?thesis
      by (simp add: completedRow_def attemptById_save)
  next
    case False
    with c show ?thesis by (simp add: completedRow_def attemptById_save)
  qed
qed

lemma find_snoc:
  "find P xs = Some c \<Longrightarrow> find P (xs @ ys) = Some c"
  by (induction xs) auto

lemma insert_keeps:
  assumes "attemptIndexes d" and "ExamAttempt_insert d n = Some d'"
  shows "attemptIndexes d'" and "completedRow d i sid eid \<Longrightarrow> completedRow d' i sid eid"
    and "exams d' = exams d" and "submissions d' = submissions d"
proof -
  from assms(2) have d': "d' = d\<lparr>examAttempts := examAttempts d @ [n]\<rparr>"
    and fresh: "attempt_id n \<notin> attempt_id ` set (examAttempts d)"
      "(studentId n, examId n) \<notin> (\<lambda>b. (studentId b, examId b)) ` set (examAttempts d)"
    by (auto simp: ExamAttempt_insert_def split: if_splits)
  from assms(1) fresh show "attemptIndexes d'" by (simp add: attemptIndexes_def d')
  show "completedRow d' i sid eid" if "completedRow d i sid eid"
    using that by (auto simp: completedRow_def attemptById_def d' find_snoc split: option.splits)
  from d' show "exams d' = exams d" and "submissions d' = submissions d" by simp_all
qed

lemma save_other_fields:
  "exams (ExamAttempt_save d a) = exams d" "submissions (ExamAttempt_save d a) = submissions d"
  by (simp_all add: ExamAttempt_save_def)

lemma findOne_mem:
  "ExamAttempt_findOne P d = Some a \<Longrightarrow> a \<in> set (examAttempts d) \<and> P a"
  by (auto simp: ExamAttempt_findOne_def find_Some_iff)

lemma start_keeps:
  assumes "attemptIndexes d"
  shows "attemptIndexes (fst (start d now newId s e))"
    and "completedRow d i sid eid \<Longrightarrow> completedRow (fst (start d now newId s e)) i sid eid"
    and "exams (fst (start d now newId s e)) = exams d"
  using assms insert_keeps [OF assms]
    save_keeps_indexes(1) [OF assms] save_keeps_completed [OF assms]
  by (auto simp: start_def Let_def save_other_fields split: option.splits dest!: findOne_mem)

lemma getStatus_keeps:
  assumes "attemptIndexes d"
  shows "attemptIndexes (fst (getStatus d now s e))"
    and "completedRow d i sid eid \<Longrightarrow> completedRow (fst (getStatus d now s e)) i sid eid"
    and "exams (fst (getStatus d now s e)) = exams d"
  using assms save_keeps_indexes(1) [OF assms] save_keeps_completed [OF assms]
  by (auto simp: getStatus_def Let_def save_other_fields split: option.splits dest!: findOne_mem)

lemma updateTime_keeps:
  assumes "attemptIndexes d"
  shows "attemptIndexes (fst (updateTime d now aid s t))"
    and "completedRow d i sid eid \<Longrightarrow> completedRow (fst (updateTime d now aid s t)) i sid eid"
    and "exams (fst (updateTime d now aid s t)) = exams d"
  using assms save_keeps_indexes(1) [OF assms] save_keeps_completed [OF assms]
  by (auto simp: updateTime_def Let_def save_other_fields split: option.splits dest!: findOne_mem)

lemma complete_keeps:
  assumes "attemptIndexes d"
  shows "attemptIndexes (fst (complete d aid s))"
    and "completedRow d i sid eid \<Longrightarrow> completedRow (fst (complete d aid s)) i sid eid"
    and "exams (fst (complete d aid s)) = exams d"
  using assms save_keeps_indexes(1) [OF assms] save_keeps_completed [OF assms]
  by (auto simp: complete_def Let_def save_other_fields split: option.splits dest!: findOne_mem)


lemma submit_attempts:
  "examAttempts (fst (submit d now newId s file e up)) = examAttempts d"
  "exams (fst (submit d now newId s file e up)) = exams d"
  by (auto simp: submit_def Submission_insert_def Let_def split: option.splits)

lemma setActive_keeps:
  "examAttempts (Exam_setActive d e v) = examAttempts d"
  "(Exam_findById (Exam_setActive d e v) eid = None) = (Exam_findById d eid = None)"
proof -
  show "examAttempts (Exam_setActive d e v) = examAttempts d"
    by (simp add: Exam_setActive_def)
  have "(find (\<lambda>x. exam_id x = eid)
           (map (\<lambda>x. if exam_id x = e then x\<lparr>isActive := v\<rparr> else x) xs) = None)
      = (find (\<lambda>x. exam_id x = eid) xs = None)" for xs :: "exam list"
    by (induction xs) auto
  then show "(Exam_findById (Exam_setActive d e v) eid = None) = (Exam_findById d eid = None)"
    by (simp add: Exam_setActive_def Exam_findById_def)
qed

lemma toggle_attempts:
  "examAttempts (fst (cancelExam d e t)) = examAttempts d"
  "examAttempts (fst (activateExam d e t)) = examAttempts d"
  "(Exam_findById (fst (cancelExam d e t)) eid = None) = (Exam_findById d eid = None)"
  "(Exam_findById (fst (activateExam d e t)) eid = None) = (Exam_findById d eid = None)"
  by (simp_all add: cancelExam_def activateExam_def setActive_keeps split: option.splits)

lemma same_attempts:
  assumes "examAttempts d' = examAttempts d"
  shows "attemptIndexes d' = attemptIndexes d" and "completedRow d' i sid eid = completedRow d i sid eid"
  using assms by (simp_all add: attemptIndexes_def completedRow_def attemptById_def)

lemma same_exams:
  "exams d' = exams d \<Longrightarrow> Exam_findById d' eid = Exam_findById d eid"
  by (simp add: Exam_findById_def)

lemma step_keeps:
  assumes "attemptIndexes d" and "completedRow d i sid eid" and "Exam_findById d eid \<noteq> None"
  shows "attemptIndexes (step d r) \<and> completedRow (step d r) i sid eid
         \<and> Exam_findById (step d r) eid \<noteq> None"
proof (cases r)
  case (ReqStart now newId s e)
  with assms start_keeps [OF assms(1)] show ?thesis
    by (simp add: Exam_findById_def)
next
  case (ReqGetStatus now s e)
  with assms getStatus_keeps [OF assms(1)] show ?thesis
    by (simp add: Exam_findById_def)
next
  case (ReqUpdateTime now aid s t)
  with assms updateTime_keeps [OF assms(1)] show ?thesis
    by (simp add: Exam_findById_def)
next
  case (ReqComplete aid s)
  with assms complete_keeps [OF assms(1)] show ?thesis
    by (simp add: Exam_findById_def)
next
  case (ReqSubmit now newId s fl e up)
  with assms show ?thesis
    by (simp add: same_attempts [OF submit_attempts(1)] same_exams [OF submit_attempts(2)])
next
  case (ReqCancelExam e t)
  with assms show ?thesis
    by (simp add: same_attempts [OF toggle_attempts(1)] toggle_attempts(3))
next
  case (ReqActivateExam e t)
  with assms show ?thesis
    by (simp add: same_attempts [OF toggle_attempts(2)] toggle_attempts(4))
qed

lemma run_keeps:
  assumes "attemptIndexes d" and "completedRow d i sid eid" and "Exam_findById d eid \<noteq> None"
  shows "attemptIndexes (run d rs) \<and> completedRow (run d rs) i sid eid
         \<and> Exam_findById (run d rs) eid \<noteq> None"
  using assms
proof (induction rs arbitrary: d)
  case Nil
  then show ?case by (simp add: run_def)
next
  case (Cons r rs)
  from step_keeps [OF Cons.prems] Cons.IH [of "step d r"] show ?case
    by (simp add: run_def)
qed

lemma start_on_completed:
  assumes "attemptIndexes d" and "completedRow d i sid eid" and "Exam_findById d eid \<noteq> None"
  shows "start d now newId sid eid
           = (d, Inl (if Submission_findOne d sid eid = None then AlreadyCompleted
                      else AlreadySubmitted))"
proof -
  from assms(2) obtain c where c: "attemptById d i = Some c" "isCompleted c"
    "studentId c = sid" "examId c = eid"
    by (auto simp: completedRow_def split: option.splits)
  from attemptById_set [OF c(1)] have mem: "c \<in> set (examAttempts d)" by simp
  from find_filter_single [OF pair_rows [OF assms(1) mem]] c(3,4)
  have "ExamAttempt_findOne (\<lambda>a. studentId a = sid \<and> examId a = eid) d = Some c"
    by (simp add: ExamAttempt_findOne_def)
  with assms(3) c(2) show ?thesis
    by (auto simp: start_def split: option.splits)
qed

lemma attempt_ops_submissions:
  "submissions (fst (start d now newId s e)) = submissions d"
  "submissions (fst (getStatus d now s e)) = submissions d"
  "submissions (fst (updateTime d now aid s t)) = submissions d"
  "submissions (fst (complete d aid s)) = submissions d"
  "submissions (fst (cancelExam d e tid)) = submissions d"
  "submissions (fst (activateExam d e tid)) = submissions d"
  by (auto simp: start_def getStatus_def updateTime_def complete_def cancelExam_def
        activateExam_def ExamAttempt_save_def ExamAttempt_insert_def Exam_setActive_def Let_def
      split: option.splits)

lemma submission_found:
  assumes "filter (\<lambda>b. sub_studentId b = sid \<and> sub_examId b = eid) (submissions d) = [s]"
  shows "Submission_findOne d sid eid = Some s"
  using find_filter_single [OF assms] by (simp add: Submission_findOne_def)

lemma submit_keeps_row:
  assumes "filter (\<lambda>b. sub_studentId b = sid \<and> sub_examId b = eid) (submissions d) = [s]"
  shows "filter (\<lambda>b. sub_studentId b = sid \<and> sub_examId b = eid)
           (submissions (fst (submit d now newId sid' fl eid' up))) = [s]"
proof (cases "sid' = sid \<and> eid' = eid")
  case True
  with submission_found [OF assms] assms show ?thesis
    by (auto simp: submit_def split: option.splits)
next
  case False
  with assms show ?thesis
    by (auto simp: submit_def Submission_insert_def Let_def split: option.splits)
qed

lemma step_keeps_submission:
  assumes "filter (\<lambda>b. sub_studentId b = sid \<and> sub_examId b = eid) (submissions d) = [s]"
    and "Exam_findById d eid \<noteq> None"
  shows "filter (\<lambda>b. sub_studentId b = sid \<and> sub_examId b = eid) (submissions (step d r)) = [s]
         \<and> Exam_findById (step d r) eid \<noteq> None"
proof (cases r)
  case (ReqSubmit now newId s' fl e' up)
  with assms submit_keeps_row [OF assms(1)] show ?thesis
    by (simp add: same_exams [OF submit_attempts(2)])
next
  case (ReqCancelExam e t)
  with assms show ?thesis by (simp add: attempt_ops_submissions toggle_attempts)
next
  case (ReqActivateExam e t)
  with assms show ?thesis by (simp add: attempt_ops_submissions toggle_attempts)
next
  case (ReqStart now newId s' e')
  have "exams (fst (start d now newId s' e')) = exams d"
    by (auto simp: start_def ExamAttempt_save_def ExamAttempt_insert_def Let_def
        split: option.splits)
  with ReqStart assms show ?thesis
    by (simp add: attempt_ops_submissions Exam_findById_def)
next
  case (ReqGetStatus now s' e')
  have "exams (fst (getStatus d now s' e')) = exams d"
    by (auto simp: getStatus_def ExamAttempt_save_def Let_def split: option.splits)
  with ReqGetStatus assms show ?thesis
    by (simp add: attempt_ops_submissions Exam_findById_def)
next
  case (ReqUpdateTime now aid s' t)
  have "exams (fst (updateTime d now aid s' t)) = exams d"
    by (auto simp: updateTime_def ExamAttempt_save_def Let_def split: option.splits)
  with ReqUpdateTime assms show ?thesis
    by (simp add: attempt_ops_submissions Exam_findById_def)
next
  case (ReqComplete aid s')
  have "exams (fst (complete d aid s')) = exams d"
    by (auto simp: complete_def ExamAttempt_save_def split: option.splits)
  with ReqComplete assms show ?thesis
    by (simp add: attempt_ops_submissions Exam_findById_def)
qed

lemma run_keeps_submission:
  assumes "filter (\<lambda>b. sub_studentId b = sid \<and> sub_examId b = eid) (submissions d) = [s]"
    and "Exam_findById d eid \<noteq> None"
  shows "filter (\<lambda>b. sub_studentId b = sid \<and> sub_examId b = eid) (submissions (run d rs)) = [s]
         \<and> Exam_findById (run d rs) eid \<noteq> None"
  using assms
proof (induction rs arbitrary: d)
  case Nil
  then show ?case by (simp add: run_def)
next
  case (Cons r rs)
  from step_keeps_submission [OF Cons.prems] Cons.IH [of "step d r"] show ?case
    by (simp add: run_def)
qed


section \<open>UpdateTime\<close>

text \<open>
  Claim C5. An UpdateTime request on an attempt that does not belong to the calling
  student fails with NotFound (status 404) and leaves the state as it is. On the
  student's own attempt the new remaining time is clamped to at least 0 and stored,
  \<^verbatim>\<open>lastAccessedAt\<close> becomes the time of the request, and the status becomes
  \<^verbatim>\<open>expired\<close> when the clamped value is 0 (so on every negative input); nothing else
  of the attempt changes.
\<close>

theorem updateTime_owner_clamps:
  assumes "distinct (map attempt_id (examAttempts d))" and "a \<in> set (examAttempts d)"
  shows "(studentId a \<noteq> sid \<longrightarrow>
            updateTime d now (attempt_id a) sid t = (d, Inl AttemptNotFound)
            \<and> httpStatus AttemptNotFound = 404)
       \<and> (studentId a = sid \<longrightarrow>
            (\<exists>d' a'. updateTime d now (attempt_id a) sid t = (d', Inr a')
               \<and> attemptById d' (attempt_id a) = Some a'
               \<and> a' = a\<lparr>timeRemaining := max 0 t, lastAccessedAt := now,
                        status := (if max 0 t = 0 then Expired else status a)\<rparr>
               \<and> (t < 0 \<longrightarrow> timeRemaining a' = 0 \<and> status a' = Expired)))"
  using find_id_distinct [OF assms, of "\<lambda>b. studentId b = sid"] find_id_saved [OF assms(2)]
  by (auto simp: updateTime_def ExamAttempt_findOne_def ExamAttempt_save_def attemptById_def
        Let_def)

theorem updateTime_owner_clamps_witness:
  "distinct (map attempt_id (examAttempts db1)) \<and> attempt1 \<in> set (examAttempts db1)
   \<and> updateTime db1 5000 10 6 50 = (db1, Inl AttemptNotFound)
   \<and> (\<exists>d' a'. updateTime db1 5000 10 5 (- 3) = (d', Inr a')
         \<and> attemptById d' 10 = Some a'
         \<and> timeRemaining a' = 0 \<and> lastAccessedAt a' = 5000 \<and> status a' = Expired)"
proof -
  have h1: "distinct (map attempt_id (examAttempts db1))"
    by (simp add: db1_def)
  have h2: "attempt1 \<in> set (examAttempts db1)"
    by (simp add: db1_def)
  have id: "attempt_id attempt1 = 10" and st: "studentId attempt1 = 5"
    by (simp_all add: attempt1_def)
  from updateTime_owner_clamps [OF h1 h2, of 6 5000 50]
  have other: "updateTime db1 5000 10 6 50 = (db1, Inl AttemptNotFound)"
    by (simp add: id st)
  from updateTime_owner_clamps [OF h1 h2, of 5 5000 "- 3"]
  have own: "\<exists>d' a'. updateTime db1 5000 10 5 (- 3) = (d', Inr a')
         \<and> attemptById d' 10 = Some a'
         \<and> timeRemaining a' = 0 \<and> lastAccessedAt a' = 5000 \<and> status a' = Expired"
    by (auto simp: id st)
  from h1 h2 other own show ?thesis by blast
qed

section \<open>Serving a file whose reference is a URL\<close>

text \<open>
  Claim C10. When the reference string of a file request begins with \<^verbatim>\<open>http\<close>, the
  handler answers with a redirect to that very string, whatever follows the prefix,
  whatever the state holds and whatever the identifier check would say: no exam is
  looked up, and none of the outcomes invalid reference, not found and forbidden can occur.
\<close>

theorem serveFile_http_redirects_at_once:
  "serveFile castObjectId d (''http'' @ rest) = Inr (Redirect (''http'' @ rest))
   \<and> serveFile castObjectId d (''http'' @ rest)
       \<notin> {Inl InvalidFileId, Inl ExamFileNotFound, Inl ExamNotActive}"
  by (simp add: serveFile_def)

section \<open>GetStatus\<close>

text \<open>
  Claim C2. For an existing attempt, GetStatus takes the whole seconds elapsed since
  \<^verbatim>\<open>startedAt\<close> and the effective remaining time
  \<^verbatim>\<open>max(0, timeRemaining - elapsed)\<close>. When that is 0 and the status is not
  \<^verbatim>\<open>completed\<close>, the attempt is stored with status \<^verbatim>\<open>expired\<close> and remaining time
  0 and reported so; a repeated call leaves that state as it is, and at any time not
  before \<^verbatim>\<open>startedAt\<close> it gives the same report. When the effective remaining time is
  positive it is reported and the state is not changed.
\<close>

theorem getStatus_expires_idempotently:
  assumes "distinct (map attempt_id (examAttempts d))"
    and "ExamAttempt_findOne (\<lambda>b. studentId b = sid \<and> examId b = eid) d = Some a"
  shows "(max 0 (timeRemaining a - (now - startedAt a) div 1000) \<le> 0 \<and> status a \<noteq> Completed \<longrightarrow>
            (\<exists>d' r. getStatus d now sid eid = (d', Some r)
               \<and> status r = Expired \<and> timeRemaining r = 0
               \<and> r = a\<lparr>status := Expired, timeRemaining := 0\<rparr>
               \<and> attemptById d' (attempt_id a) = Some r
               \<and> (\<forall>now'. fst (getStatus d' now' sid eid) = d')
               \<and> (\<forall>now'. startedAt a \<le> now' \<longrightarrow> getStatus d' now' sid eid = (d', Some r))))
       \<and> (max 0 (timeRemaining a - (now - startedAt a) div 1000) > 0 \<longrightarrow>
            getStatus d now sid eid
              = (d, Some (a\<lparr>timeRemaining := max 0 (timeRemaining a - (now - startedAt a) div 1000)\<rparr>)))"
proof -
  let ?P = "\<lambda>b. studentId b = sid \<and> examId b = eid"
  let ?r = "a\<lparr>status := Expired, timeRemaining := 0\<rparr>"
  let ?d' = "ExamAttempt_save d ?r"
  from assms(2) have fa: "find ?P (examAttempts d) = Some a"
    by (simp add: ExamAttempt_findOne_def)
  then have mem: "a \<in> set (examAttempts d)" and Pa: "?P a"
    by (auto simp: find_Some_iff)
  have Pr: "?P ?r" using Pa by simp
  have again: "ExamAttempt_findOne ?P ?d' = Some ?r"
    using find_saved [OF assms(1) fa _ Pr]
    by (simp add: ExamAttempt_findOne_def ExamAttempt_save_def)
  have byid: "attemptById ?d' (attempt_id a) = Some ?r"
    using find_id_saved [OF mem, of ?r] by (simp add: attemptById_def ExamAttempt_save_def)
  have rep: "getStatus ?d' now' sid eid = (?d', Some ?r)" if "startedAt a \<le> now'" for now'
  proof -
    from that have "0 \<le> (now' - startedAt a) div 1000"
      by (simp add: pos_imp_zdiv_nonneg_iff)
    then show ?thesis
      by (simp add: getStatus_def again Let_def save_twice)
  qed
  have same: "fst (getStatus ?d' now' sid eid) = ?d'" for now'
    by (simp add: getStatus_def again Let_def save_twice)
  have exp: "max 0 (timeRemaining a - (now - startedAt a) div 1000) \<le> 0 \<and> status a \<noteq> Completed
     \<Longrightarrow> getStatus d now sid eid = (?d', Some ?r)"
    by (auto simp: getStatus_def assms(2) Let_def)
  have live: "max 0 (timeRemaining a - (now - startedAt a) div 1000) > 0 \<Longrightarrow>
     getStatus d now sid eid
       = (d, Some (a\<lparr>timeRemaining := max 0 (timeRemaining a - (now - startedAt a) div 1000)\<rparr>))"
    by (auto simp: getStatus_def assms(2) Let_def max_def split: if_splits)
  show ?thesis
  proof (intro conjI impI)
    assume h: "max 0 (timeRemaining a - (now - startedAt a) div 1000) \<le> 0 \<and> status a \<noteq> Completed"
    show "\<exists>d' r. getStatus d now sid eid = (d', Some r)
               \<and> status r = Expired \<and> timeRemaining r = 0
               \<and> r = a\<lparr>status := Expired, timeRemaining := 0\<rparr>
               \<and> attemptById d' (attempt_id a) = Some r
               \<and> (\<forall>now'. fst (getStatus d' now' sid eid) = d')
               \<and> (\<forall>now'. startedAt a \<le> now' \<longrightarrow> getStatus d' now' sid eid = (d', Some r))"
      using exp [OF h] byid rep same by (intro exI [of _ ?d'] exI [of _ ?r]) simp
  next
    assume "max 0 (timeRemaining a - (now - startedAt a) div 1000) > 0"
    then show "getStatus d now sid eid
       = (d, Some (a\<lparr>timeRemaining := max 0 (timeRemaining a - (now - startedAt a) div 1000)\<rparr>))"
      by (rule live)
  qed
qed

theorem getStatus_expires_idempotently_witness:
  "distinct (map attempt_id (examAttempts db1))
   \<and> ExamAttempt_findOne (\<lambda>b. studentId b = 5 \<and> examId b = 1) db1 = Some attempt1
   \<and> (\<exists>d' r. getStatus db1 3700000 5 1 = (d', Some r)
         \<and> status r = Expired \<and> timeRemaining r = 0
         \<and> getStatus d' 3800000 5 1 = (d', Some r))
   \<and> getStatus db1 100000 5 1 = (db1, Some (attempt1\<lparr>timeRemaining := 3500\<rparr>))"
proof -
  have h1: "distinct (map attempt_id (examAttempts db1))"
    by (simp add: db1_def)
  have h2: "ExamAttempt_findOne (\<lambda>b. studentId b = 5 \<and> examId b = 1) db1 = Some attempt1"
    by (simp add: ExamAttempt_findOne_def db1_def attempt1_def)
  have f: "timeRemaining attempt1 = 3600" "startedAt attempt1 = 0" "status attempt1 = Started"
    by (simp_all add: attempt1_def)
  from getStatus_expires_idempotently [OF h1 h2, of 3700000]
  have late: "\<exists>d' r. getStatus db1 3700000 5 1 = (d', Some r)
         \<and> status r = Expired \<and> timeRemaining r = 0
         \<and> getStatus d' 3800000 5 1 = (d', Some r)"
    by (auto simp: f)
  from getStatus_expires_idempotently [OF h1 h2, of 100000]
  have early: "getStatus db1 100000 5 1 = (db1, Some (attempt1\<lparr>timeRemaining := 3500\<rparr>))"
    by (simp add: f)
  from h1 h2 late early show ?thesis by blast
qed

section \<open>Start, twice\<close>

lemma start_again:
  assumes "attemptIndexes d" and "start d now1 new1 sid eid = (d1, Inr a1)"
  shows "\<exists>d2 a2. start d1 now2 new2 sid eid = (d2, Inr a2)
           \<and> a2 = a1\<lparr>lastAccessedAt := now2\<rparr>
           \<and> attempt_id a2 = attempt_id a1
           \<and> timeRemaining a2 = timeRemaining a1
           \<and> lastAccessedAt a2 = now2
           \<and> status a2 = Started
           \<and> map attempt_id (examAttempts d2) = map attempt_id (examAttempts d1)
           \<and> filter (\<lambda>b. studentId b = sid \<and> examId b = eid) (examAttempts d1) = [a1]
           \<and> filter (\<lambda>b. studentId b = sid \<and> examId b = eid) (examAttempts d2) = [a2]"
proof -
  let ?P = "\<lambda>b. studentId b = sid \<and> examId b = eid"
  let ?a2 = "a1\<lparr>lastAccessedAt := now2, status := Started\<rparr>"
  let ?d2 = "ExamAttempt_save d1 ?a2"
  note s1 = start_success [OF assms]
  from s1(8) s1(6) obtain ex where ex: "Exam_findById d1 eid = Some ex"
    by (auto simp: Exam_findById_def)
  from s1(9) s1(7) have nosub: "Submission_findOne d1 sid eid = None"
    by (simp add: Submission_findOne_def)
  from find_filter_single [OF s1(2)] have found: "ExamAttempt_findOne ?P d1 = Some a1"
    by (simp add: ExamAttempt_findOne_def)
  then have mem: "a1 \<in> set (examAttempts d1)"
    by (auto simp: ExamAttempt_findOne_def find_Some_iff)
  from ex nosub found s1(4) have second: "start d1 now2 new2 sid eid = (?d2, Inr ?a2)"
    by (simp add: start_def Let_def)
  note s2 = start_success [OF s1(1) second]
  have ids: "map attempt_id (examAttempts ?d2) = map attempt_id (examAttempts d1)"
    using save_keeps_indexes(2) [OF s1(1) mem, of ?a2] by simp
  have same: "?a2 = a1\<lparr>lastAccessedAt := now2\<rparr>" using s1(3) by simp
  show ?thesis
  proof (intro exI [of _ ?d2] exI [of _ ?a2] conjI)
    show "start d1 now2 new2 sid eid = (?d2, Inr ?a2)" by (rule second)
    show "?a2 = a1\<lparr>lastAccessedAt := now2\<rparr>" by (rule same)
    show "map attempt_id (examAttempts ?d2) = map attempt_id (examAttempts d1)" by (rule ids)
    show "filter ?P (examAttempts d1) = [a1]" by (rule s1(2))
    show "filter ?P (examAttempts ?d2) = [?a2]" by (rule s2(2))
  qed simp_all
qed


lemma start_first:
  assumes "Exam_findById d eid = Some ex"
    and "Submission_findOne d sid eid = None"
    and "\<forall>a\<in>set (examAttempts d). studentId a = sid \<and> examId a = eid \<longrightarrow> \<not> isCompleted a"
    and "new1 \<notin> set (map attempt_id (examAttempts d))"
  shows "\<exists>d1. start d now1 new1 sid eid
           = (d1, Inr (case ExamAttempt_findOne (\<lambda>b. studentId b = sid \<and> examId b = eid) d of
                         Some a \<Rightarrow> a\<lparr>lastAccessedAt := now1, status := Started\<rparr>
                       | None \<Rightarrow> \<lparr>attempt_id = new1, studentId = sid, examId = eid,
                                   startedAt = now1, lastAccessedAt = now1,
                                   timeRemaining = duration ex * 60,
                                   status = Started, isCompleted = False\<rparr>))
         \<and> map attempt_id (examAttempts d1)
           = (case ExamAttempt_findOne (\<lambda>b. studentId b = sid \<and> examId b = eid) d of
                Some a \<Rightarrow> map attempt_id (examAttempts d)
              | None \<Rightarrow> map attempt_id (examAttempts d) @ [new1])"
proof (cases "ExamAttempt_findOne (\<lambda>b. studentId b = sid \<and> examId b = eid) d")
  case None
  then have "(sid, eid) \<notin> set (map (\<lambda>b. (studentId b, examId b)) (examAttempts d))"
    by (auto simp: ExamAttempt_findOne_def find_None_iff)
  with None assms show ?thesis
    by (simp add: start_def ExamAttempt_insert_def Let_def)
next
  case (Some a)
  from findOne_mem [OF Some] assms(3) have "\<not> isCompleted a" by blast
  with Some assms(1,2) show ?thesis
    by (simp add: start_def Let_def ExamAttempt_save_def comp_def)
qed

lemma db1Updated_reachable:
  "fst (updateTime db1 5000 10 5 1200) = db1Updated"
  by (simp add: updateTime_def ExamAttempt_findOne_def ExamAttempt_save_def Let_def
        db1Updated_def attempt1Updated_def db1_def attempt1_def)

lemma db1Completed_reachable:
  "fst (complete db1 10 5) = db1Completed"
  by (simp add: complete_def ExamAttempt_findOne_def ExamAttempt_save_def
        db1Completed_def attempt1Completed_def db1_def attempt1_def)

text \<open>
  Claim C1, as stated, fails for a pair whose attempt is completed: the exam exists and
  the student has no submission, yet neither Start resumes; both are refused with
  \<^verbatim>\<open>AlreadyCompleted\<close> ("You have already completed this exam").
\<close>

theorem start_twice_completed_counterexample:
  "fst (complete db1 10 5) = db1Completed
   \<and> Exam_findById db1Completed 1 = Some exam1
   \<and> Submission_findOne db1Completed 5 1 = None
   \<and> start db1Completed 2000 11 5 1 = (db1Completed, Inl AlreadyCompleted)
   \<and> start (fst (start db1Completed 2000 11 5 1)) 3000 12 5 1
       = (db1Completed, Inl AlreadyCompleted)"
  unfolding db1Completed_reachable
  by (simp add: start_def Exam_findById_def Submission_findOne_def ExamAttempt_findOne_def
        db1Completed_def attempt1Completed_def db1_def db0_def exam1_def attempt1_def)

text \<open>
  Claim C1, amended. Take a student and an existing exam for which the student has no
  submission and no completed attempt, in a collection that satisfies its unique indexes
  (the identifier generated for a new document being unused). Then a Start request
  succeeds: it answers the stored attempt of the pair with \<^verbatim>\<open>lastAccessedAt\<close> set to
  the time of the request and status \<^verbatim>\<open>started\<close>, or, when the pair has none, a new
  attempt with \<^verbatim>\<open>timeRemaining\<close> of sixty times the exam's duration, the only row
  added. A second Start for the same pair, whenever it comes, succeeds as well and
  resumes: it answers that same attempt, under the same identifier, with status
  \<^verbatim>\<open>started\<close>, with \<^verbatim>\<open>lastAccessedAt\<close> set to the time of the second request, and
  with \<^verbatim>\<open>timeRemaining\<close> as it was stored before the two calls (as created by the first,
  when there was none): it is not reset. The second call creates no row; the pair has
  exactly one row after each call, the attempt that the call answers.
\<close>

theorem start_twice_resumes:
  assumes "attemptIndexes d"
    and "Exam_findById d eid = Some ex"
    and "Submission_findOne d sid eid = None"
    and "\<forall>a\<in>set (examAttempts d). studentId a = sid \<and> examId a = eid \<longrightarrow> \<not> isCompleted a"
    and "new1 \<notin> set (map attempt_id (examAttempts d))"
  shows "\<exists>d1 a1 d2 a2.
           start d now1 new1 sid eid = (d1, Inr a1)
           \<and> start d1 now2 new2 sid eid = (d2, Inr a2)
           \<and> a1 = (case ExamAttempt_findOne (\<lambda>b. studentId b = sid \<and> examId b = eid) d of
                     Some a \<Rightarrow> a\<lparr>lastAccessedAt := now1, status := Started\<rparr>
                   | None \<Rightarrow> \<lparr>attempt_id = new1, studentId = sid, examId = eid,
                               startedAt = now1, lastAccessedAt = now1,
                               timeRemaining = duration ex * 60,
                               status = Started, isCompleted = False\<rparr>)
           \<and> a2 = a1\<lparr>lastAccessedAt := now2\<rparr>
           \<and> (\<forall>a. ExamAttempt_findOne (\<lambda>b. studentId b = sid \<and> examId b = eid) d = Some a \<longrightarrow>
                  attempt_id a2 = attempt_id a \<and> timeRemaining a2 = timeRemaining a)
           \<and> attempt_id a2 = attempt_id a1
           \<and> timeRemaining a2 = timeRemaining a1
           \<and> lastAccessedAt a2 = now2
           \<and> status a2 = Started
           \<and> map attempt_id (examAttempts d1)
               = (case ExamAttempt_findOne (\<lambda>b. studentId b = sid \<and> examId b = eid) d of
                    Some a \<Rightarrow> map attempt_id (examAttempts d)
                  | None \<Rightarrow> map attempt_id (examAttempts d) @ [new1])
           \<and> map attempt_id (examAttempts d2) = map attempt_id (examAttempts d1)
           \<and> filter (\<lambda>b. studentId b = sid \<and> examId b = eid) (examAttempts d1) = [a1]
           \<and> filter (\<lambda>b. studentId b = sid \<and> examId b = eid) (examAttempts d2) = [a2]"
proof -
  let ?P = "\<lambda>b. studentId b = sid \<and> examId b = eid"
  let ?a1 = "case ExamAttempt_findOne ?P d of
               Some a \<Rightarrow> a\<lparr>lastAccessedAt := now1, status := Started\<rparr>
             | None \<Rightarrow> \<lparr>attempt_id = new1, studentId = sid, examId = eid,
                         startedAt = now1, lastAccessedAt = now1,
                         timeRemaining = duration ex * 60,
                         status = Started, isCompleted = False\<rparr>"
  from start_first [OF assms(2-5), of now1] obtain d1
    where first: "start d now1 new1 sid eid = (d1, Inr ?a1)"
      and rows: "map attempt_id (examAttempts d1)
               = (case ExamAttempt_findOne ?P d of
                    Some a \<Rightarrow> map attempt_id (examAttempts d)
                  | None \<Rightarrow> map attempt_id (examAttempts d) @ [new1])"
    by blast
  from start_again [OF assms(1) first, of now2 new2] obtain d2 a2
    where second: "start d1 now2 new2 sid eid = (d2, Inr a2)"
      and res: "a2 = ?a1\<lparr>lastAccessedAt := now2\<rparr>"
        "attempt_id a2 = attempt_id ?a1" "timeRemaining a2 = timeRemaining ?a1"
        "lastAccessedAt a2 = now2" "status a2 = Started"
        "map attempt_id (examAttempts d2) = map attempt_id (examAttempts d1)"
        "filter ?P (examAttempts d1) = [?a1]" "filter ?P (examAttempts d2) = [a2]"
    by blast
  have kept: "\<forall>a. ExamAttempt_findOne ?P d = Some a \<longrightarrow>
                  attempt_id a2 = attempt_id a \<and> timeRemaining a2 = timeRemaining a"
    using res(2,3) by auto
  show ?thesis
    using first second res rows kept
    by - (rule exI [of _ d1], rule exI [of _ ?a1], rule exI [of _ d2], rule exI [of _ a2],
          (intro conjI; (rule refl | assumption)))
qed

theorem start_twice_resumes_witness:
  "attemptIndexes db0 \<and> Exam_findById db0 1 = Some exam1 \<and> Submission_findOne db0 5 1 = None
   \<and> examAttempts db0 = []
   \<and> start db0 0 10 5 1 = (db1, Inr attempt1)
   \<and> (\<exists>d2 a2. start db1 9000 11 5 1 = (d2, Inr a2)
         \<and> attempt_id a2 = 10 \<and> timeRemaining a2 = 3600 \<and> lastAccessedAt a2 = 9000
         \<and> status a2 = Started \<and> map attempt_id (examAttempts d2) = [10])
   \<and> fst (updateTime db1 5000 10 5 1200) = db1Updated
   \<and> examAttempts db1Updated = [attempt1Updated] \<and> timeRemaining attempt1Updated = 1200
   \<and> (\<exists>d1 a1 d2 a2. start db1Updated 6000 11 5 1 = (d1, Inr a1)
         \<and> start d1 9000 12 5 1 = (d2, Inr a2)
         \<and> attempt_id a1 = 10 \<and> timeRemaining a1 = 1200
         \<and> attempt_id a2 = 10 \<and> timeRemaining a2 = 1200 \<and> lastAccessedAt a2 = 9000
         \<and> status a2 = Started
         \<and> map attempt_id (examAttempts d1) = [10]
         \<and> map attempt_id (examAttempts d2) = [10]
         \<and> filter (\<lambda>b. studentId b = 5 \<and> examId b = 1) (examAttempts d2) = [a2])"
proof -
  have h1: "attemptIndexes db0"
    by (simp add: attemptIndexes_def db0_def)
  have h2: "Exam_findById db0 1 = Some exam1"
    by (simp add: Exam_findById_def db0_def exam1_def)
  have h3: "Submission_findOne db0 5 1 = None"
    by (simp add: Submission_findOne_def db0_def)
  have e0: "examAttempts db0 = []"
    by (simp add: db0_def)
  have h4: "\<forall>a\<in>set (examAttempts db0). studentId a = 5 \<and> examId a = 1 \<longrightarrow> \<not> isCompleted a"
    by (simp add: e0)
  have h5: "10 \<notin> set (map attempt_id (examAttempts db0))"
    by (simp add: e0)
  have first: "start db0 0 10 5 1 = (db1, Inr attempt1)"
    by (simp add: start_def Exam_findById_def Submission_findOne_def ExamAttempt_findOne_def
          ExamAttempt_insert_def Let_def db1_def db0_def exam1_def attempt1_def)
  have f: "attempt_id attempt1 = 10" "timeRemaining attempt1 = 3600"
    "map attempt_id (examAttempts db1) = [10]"
    by (simp_all add: attempt1_def db1_def)
  from start_twice_resumes [OF h1 h2 h3 h4 h5, of 0 9000 11] obtain d1 a1 d2 a2
    where s1: "start db0 0 10 5 1 = (d1, Inr a1)"
      and s2: "start d1 9000 11 5 1 = (d2, Inr a2)"
      and r: "attempt_id a2 = attempt_id a1" "timeRemaining a2 = timeRemaining a1"
        "lastAccessedAt a2 = 9000" "status a2 = Started"
        "map attempt_id (examAttempts d2) = map attempt_id (examAttempts d1)"
    by blast
  from s1 have e: "d1 = db1" "a1 = attempt1"
    unfolding first by simp_all
  from s2 r have created: "\<exists>d2 a2. start db1 9000 11 5 1 = (d2, Inr a2)
         \<and> attempt_id a2 = 10 \<and> timeRemaining a2 = 3600 \<and> lastAccessedAt a2 = 9000
         \<and> status a2 = Started \<and> map attempt_id (examAttempts d2) = [10]"
    unfolding e f by (intro exI [of _ d2] exI [of _ a2]) simp

  have u: "examAttempts db1Updated = [attempt1Updated]" "exams db1Updated = exams db0"
    "submissions db1Updated = []"
    by (simp_all add: db1Updated_def db1_def db0_def)
  have fu: "attempt_id attempt1Updated = 10" "timeRemaining attempt1Updated = 1200"
    "studentId attempt1Updated = 5" "examId attempt1Updated = 1"
    "\<not> isCompleted attempt1Updated"
    by (simp_all add: attempt1Updated_def attempt1_def)
  have g1: "attemptIndexes db1Updated"
    by (simp add: attemptIndexes_def u)
  have g2: "Exam_findById db1Updated 1 = Some exam1"
    by (simp add: Exam_findById_def u db0_def exam1_def)
  have g3: "Submission_findOne db1Updated 5 1 = None"
    by (simp add: Submission_findOne_def u)
  have g4: "\<forall>a\<in>set (examAttempts db1Updated). studentId a = 5 \<and> examId a = 1 \<longrightarrow> \<not> isCompleted a"
    by (simp add: u fu)
  have g5: "11 \<notin> set (map attempt_id (examAttempts db1Updated))"
    by (simp add: u fu)
  have found: "ExamAttempt_findOne (\<lambda>b. studentId b = 5 \<and> examId b = 1) db1Updated
                 = Some attempt1Updated"
    by (simp add: ExamAttempt_findOne_def u fu)
  from start_twice_resumes [OF g1 g2 g3 g4 g5, of 6000 9000 12] obtain e1 b1 e2 b2
    where t1: "start db1Updated 6000 11 5 1 = (e1, Inr b1)"
      and t2: "start e1 9000 12 5 1 = (e2, Inr b2)"
      and v1: "b1 = attempt1Updated\<lparr>lastAccessedAt := 6000, status := Started\<rparr>"
      and v: "attempt_id b2 = attempt_id attempt1Updated"
        "timeRemaining b2 = timeRemaining attempt1Updated"
        "lastAccessedAt b2 = 9000" "status b2 = Started"
        "map attempt_id (examAttempts e1) = map attempt_id (examAttempts db1Updated)"
        "map attempt_id (examAttempts e2) = map attempt_id (examAttempts e1)"
        "filter (\<lambda>b. studentId b = 5 \<and> examId b = 1) (examAttempts e2) = [b2]"
    unfolding found option.case by blast
  from t1 t2 v1 v have resumed: "\<exists>d1 a1 d2 a2. start db1Updated 6000 11 5 1 = (d1, Inr a1)
         \<and> start d1 9000 12 5 1 = (d2, Inr a2)
         \<and> attempt_id a1 = 10 \<and> timeRemaining a1 = 1200
         \<and> attempt_id a2 = 10 \<and> timeRemaining a2 = 1200 \<and> lastAccessedAt a2 = 9000
         \<and> status a2 = Started
         \<and> map attempt_id (examAttempts d1) = [10]
         \<and> map attempt_id (examAttempts d2) = [10]
         \<and> filter (\<lambda>b. studentId b = 5 \<and> examId b = 1) (examAttempts d2) = [a2]"
    by - (rule exI [of _ e1], rule exI [of _ b1], rule exI [of _ e2], rule exI [of _ b2],
          simp add: u fu)
  from h1 h2 h3 e0 first created db1Updated_reachable u(1) fu(2) resumed
  show ?thesis by blast
qed

section \<open>Complete\<close>

lemma db2_reachable:
  "run db0 [ReqStart 0 10 5 1, ReqSubmit 1000 20 5 (Some ''answer.pdf'') 1 uploadOk] = db2"
  by (simp add: run_def start_def submit_def Exam_findById_def Submission_findOne_def
        ExamAttempt_findOne_def ExamAttempt_insert_def Submission_insert_def Let_def
        uploadOk_def db2_def sub1_def db1_def db0_def exam1_def attempt1_def)

lemma complete_db2:
  "complete db2 10 5 = (db2\<lparr>examAttempts := [attempt1Completed]\<rparr>, Inr ())"
  by (simp add: complete_def ExamAttempt_findOne_def ExamAttempt_save_def
        db2_def db1_def db0_def attempt1_def attempt1Completed_def)

text \<open>
  Claim C3, as stated, fails where the student has a submission for the exam: student 5
  starts exam 1, submits an answer and completes the attempt; the next Start is refused
  because of the submission (\<^verbatim>\<open>AlreadySubmitted\<close>: "You have already attempted this
  exam"), which the handler checks before it looks at the attempt.
\<close>

theorem complete_then_start_counterexample:
  "snd (complete (run db0 [ReqStart 0 10 5 1,
                           ReqSubmit 1000 20 5 (Some ''answer.pdf'') 1 uploadOk]) 10 5) = Inr ()
   \<and> snd (start (fst (complete (run db0 [ReqStart 0 10 5 1,
                           ReqSubmit 1000 20 5 (Some ''answer.pdf'') 1 uploadOk]) 10 5))
               2000 11 5 1) = Inl AlreadySubmitted
   \<and> snd (start (fst (complete (run db0 [ReqStart 0 10 5 1,
                           ReqSubmit 1000 20 5 (Some ''answer.pdf'') 1 uploadOk]) 10 5))
               2000 11 5 1) \<noteq> Inl AlreadyCompleted"
  unfolding db2_reachable complete_db2
  by (simp add: start_def Exam_findById_def Submission_findOne_def
        db2_def sub1_def db1_def db0_def exam1_def)

text \<open>
  Claim C3, amended. In a collection that satisfies its unique indexes, Complete on an
  attempt by its own student (the exam of the attempt existing) always succeeds,
  whatever the status and the remaining time, and stores status \<^verbatim>\<open>completed\<close> and
  \<^verbatim>\<open>isCompleted = true\<close>. After any further sequence of requests the attempt is still
  stored with \<^verbatim>\<open>isCompleted = true\<close>, and every Start of the same student on the same
  exam is refused and changes nothing: with \<^verbatim>\<open>AlreadyCompleted\<close> when the student has
  no submission for the exam, with \<^verbatim>\<open>AlreadySubmitted\<close> when there is one.
\<close>

theorem complete_is_final:
  assumes "attemptIndexes d" and "a \<in> set (examAttempts d)"
    and "Exam_findById d (examId a) \<noteq> None"
  shows "\<exists>d'. complete d (attempt_id a) (studentId a) = (d', Inr ())
           \<and> attemptById d' (attempt_id a) = Some (a\<lparr>status := Completed, isCompleted := True\<rparr>)
           \<and> (\<forall>rs now newId.
                 completedRow (run d' rs) (attempt_id a) (studentId a) (examId a)
                 \<and> start (run d' rs) now newId (studentId a) (examId a)
                     = (run d' rs,
                        Inl (if Submission_findOne (run d' rs) (studentId a) (examId a) = None
                             then AlreadyCompleted else AlreadySubmitted)))"
proof -
  let ?c = "a\<lparr>status := Completed, isCompleted := True\<rparr>"
  let ?d' = "ExamAttempt_save d ?c"
  from assms(1) have di: "distinct (map attempt_id (examAttempts d))"
    by (simp add: attemptIndexes_def)
  from find_id_distinct [OF di assms(2), of "\<lambda>b. studentId b = studentId a"]
  have cmpl: "complete d (attempt_id a) (studentId a) = (?d', Inr ())"
    by (simp add: complete_def ExamAttempt_findOne_def)
  have stored: "attemptById ?d' (attempt_id a) = Some ?c"
    by (simp add: attemptById_save attemptById_mem [OF assms(1,2)])
  have idx: "attemptIndexes ?d'"
    using save_keeps_indexes(1) [OF assms(1,2), of ?c] by simp
  have row: "completedRow ?d' (attempt_id a) (studentId a) (examId a)"
    by (simp add: completedRow_def stored)
  have ex: "Exam_findById ?d' (examId a) \<noteq> None"
    using assms(3) by (simp add: Exam_findById_def save_other_fields)
  have later: "completedRow (run ?d' rs) (attempt_id a) (studentId a) (examId a)
       \<and> start (run ?d' rs) now newId (studentId a) (examId a)
           = (run ?d' rs,
              Inl (if Submission_findOne (run ?d' rs) (studentId a) (examId a) = None
                   then AlreadyCompleted else AlreadySubmitted))" for rs now newId
  proof -
    from run_keeps [OF idx row ex, of rs]
    have k: "attemptIndexes (run ?d' rs)"
      "completedRow (run ?d' rs) (attempt_id a) (studentId a) (examId a)"
      "Exam_findById (run ?d' rs) (examId a) \<noteq> None"
      by simp_all
    from k(2) start_on_completed [OF k] show ?thesis by simp
  qed
  from cmpl stored later show ?thesis by (intro exI [of _ ?d']) simp
qed

theorem complete_is_final_witness:
  "attemptIndexes db1 \<and> attempt1 \<in> set (examAttempts db1)
   \<and> Exam_findById db1 (examId attempt1) \<noteq> None
   \<and> (\<exists>d'. complete db1 10 5 = (d', Inr ())
         \<and> attemptById d' 10 = Some attempt1Completed
         \<and> completedRow (run d' [ReqUpdateTime 5000 10 5 0]) 10 5 1
         \<and> start (run d' [ReqUpdateTime 5000 10 5 0]) 6000 11 5 1
             = (run d' [ReqUpdateTime 5000 10 5 0], Inl AlreadyCompleted))"
proof -
  have h1: "attemptIndexes db1"
    by (simp add: attemptIndexes_def db1_def)
  have h2: "attempt1 \<in> set (examAttempts db1)"
    by (simp add: db1_def)
  have h3: "Exam_findById db1 (examId attempt1) \<noteq> None"
    by (simp add: Exam_findById_def db1_def db0_def exam1_def attempt1_def)
  have f: "attempt_id attempt1 = 10" "studentId attempt1 = 5" "examId attempt1 = 1"
    by (simp_all add: attempt1_def)
  from complete_is_final [OF h1 h2 h3] obtain d' where
    c: "complete db1 10 5 = (d', Inr ())"
    and s: "attemptById d' 10 = Some attempt1Completed"
    and l: "\<And>rs now newId. completedRow (run d' rs) 10 5 1
              \<and> start (run d' rs) now newId 5 1
                  = (run d' rs, Inl (if Submission_findOne (run d' rs) 5 1 = None
                                     then AlreadyCompleted else AlreadySubmitted))"
    by (auto simp: f attempt1Completed_def)
  from c have d': "d' = db1\<lparr>examAttempts := [attempt1Completed]\<rparr>"
    by (simp add: complete_def ExamAttempt_findOne_def ExamAttempt_save_def
          db1_def attempt1_def attempt1Completed_def)
  have ns: "Submission_findOne (run d' [ReqUpdateTime 5000 10 5 0]) 5 1 = None"
    by (simp add: d' run_def updateTime_def ExamAttempt_findOne_def ExamAttempt_save_def
          Submission_findOne_def Let_def db1_def db0_def attempt1_def attempt1Completed_def)
  from l [of "[ReqUpdateTime 5000 10 5 0]" 6000 11] ns
  have "completedRow (run d' [ReqUpdateTime 5000 10 5 0]) 10 5 1
         \<and> start (run d' [ReqUpdateTime 5000 10 5 0]) 6000 11 5 1
             = (run d' [ReqUpdateTime 5000 10 5 0], Inl AlreadyCompleted)"
    by simp
  with h1 h2 h3 c s show ?thesis by blast
qed

section \<open>UpdateTime on a completed attempt\<close>

text \<open>
  Claim C4 does not hold of the handler: UpdateTime has no test of \<^verbatim>\<open>isCompleted\<close> or
  of the status. On the completed attempt of student 5 (3600 seconds left, status
  \<^verbatim>\<open>completed\<close>), an UpdateTime with the value 0 by the same student stores remaining
  time 0 and status \<^verbatim>\<open>expired\<close>.
\<close>

theorem updateTime_overwrites_completed:
  "complete db1 10 5 = (db1\<lparr>examAttempts := [attempt1Completed]\<rparr>, Inr ())
   \<and> isCompleted attempt1Completed \<and> status attempt1Completed = Completed
   \<and> timeRemaining attempt1Completed = 3600
   \<and> updateTime (db1\<lparr>examAttempts := [attempt1Completed]\<rparr>) 5000 10 5 0
       = (db1\<lparr>examAttempts := [attempt1Completed\<lparr>timeRemaining := 0, lastAccessedAt := 5000,
                                                   status := Expired\<rparr>]\<rparr>,
          Inr (attempt1Completed\<lparr>timeRemaining := 0, lastAccessedAt := 5000,
                                 status := Expired\<rparr>))"
  by (simp add: complete_def updateTime_def ExamAttempt_findOne_def ExamAttempt_save_def
        Let_def db1_def db0_def attempt1_def attempt1Completed_def)

section \<open>Submit, twice\<close>

text \<open>
  Claim C6. Let a student have a submission for an existing exam, in a collection that
  satisfies its unique indexes. Then, after any further sequence of requests, every
  Submit of that student for that exam leaves the state as it is, and when it carries an
  answer file it is refused as a duplicate (status 400, "You have already submitted
  answers for this exam"). The submissions of the pair remain the one first row, so its
  \<^verbatim>\<open>answerUrl\<close> is never changed and no second row is ever created.
\<close>

theorem submit_twice_rejected:
  assumes "submissionIndexes d" and "s \<in> set (submissions d)"
    and "Exam_findById d (sub_examId s) \<noteq> None"
  shows "\<forall>rs now newId fl up.
           fst (submit (run d rs) now newId (sub_studentId s) fl (sub_examId s) up) = run d rs
           \<and> (fl \<noteq> None \<longrightarrow>
                snd (submit (run d rs) now newId (sub_studentId s) fl (sub_examId s) up)
                  = Inl DuplicateSubmission)
           \<and> httpStatus DuplicateSubmission = 400
           \<and> filter (\<lambda>b. sub_studentId b = sub_studentId s \<and> sub_examId b = sub_examId s)
                (submissions (run d rs)) = [s]"
proof (intro allI)
  fix rs now newId fl up
  let ?P = "\<lambda>b. sub_studentId b = sub_studentId s \<and> sub_examId b = sub_examId s"
  from assms(1) have "distinct (map (\<lambda>b. (sub_studentId b, sub_examId b)) (submissions d))"
    by (simp add: submissionIndexes_def)
  from filter_unique_key [OF this assms(2)] have one: "filter ?P (submissions d) = [s]"
    by simp
  from run_keeps_submission [OF one assms(3), of rs]
  have row: "filter ?P (submissions (run d rs)) = [s]"
    and ex: "Exam_findById (run d rs) (sub_examId s) \<noteq> None"
    by simp_all
  from submission_found [OF row] ex
  have "fst (submit (run d rs) now newId (sub_studentId s) fl (sub_examId s) up) = run d rs"
    and "fl \<noteq> None \<longrightarrow>
           snd (submit (run d rs) now newId (sub_studentId s) fl (sub_examId s) up)
             = Inl DuplicateSubmission"
    by (auto simp: submit_def split: option.splits)
  with row show "fst (submit (run d rs) now newId (sub_studentId s) fl (sub_examId s) up) = run d rs
           \<and> (fl \<noteq> None \<longrightarrow>
                snd (submit (run d rs) now newId (sub_studentId s) fl (sub_examId s) up)
                  = Inl DuplicateSubmission)
           \<and> httpStatus DuplicateSubmission = 400
           \<and> filter ?P (submissions (run d rs)) = [s]"
    by simp
qed

theorem submit_twice_rejected_witness:
  "submissionIndexes db2 \<and> sub1 \<in> set (submissions db2)
   \<and> Exam_findById db2 (sub_examId sub1) \<noteq> None
   \<and> submit db2 3000 21 5 (Some ''again.pdf'') 1 uploadOk = (db2, Inl DuplicateSubmission)
   \<and> filter (\<lambda>b. sub_studentId b = 5 \<and> sub_examId b = 1)
        (submissions (run db2 [ReqSubmit 3000 21 5 (Some ''again.pdf'') 1 uploadOk])) = [sub1]"
proof -
  have h1: "submissionIndexes db2"
    by (simp add: submissionIndexes_def db2_def)
  have h2: "sub1 \<in> set (submissions db2)"
    by (simp add: db2_def)
  have h3: "Exam_findById db2 (sub_examId sub1) \<noteq> None"
    by (simp add: Exam_findById_def db2_def db1_def db0_def exam1_def sub1_def)
  have f: "sub_studentId sub1 = 5" "sub_examId sub1 = 1"
    by (simp_all add: sub1_def)
  note t = submit_twice_rejected [OF h1 h2 h3, unfolded f]
  from t [rule_format, of "[]" 3000 21 "Some ''again.pdf''" uploadOk]
  have a: "submit db2 3000 21 5 (Some ''again.pdf'') 1 uploadOk = (db2, Inl DuplicateSubmission)"
    by (simp add: run_def prod_eq_iff)
  from t [rule_format, of "[ReqSubmit 3000 21 5 (Some ''again.pdf'') 1 uploadOk]"]
  have b: "filter (\<lambda>b. sub_studentId b = 5 \<and> sub_examId b = 1)
        (submissions (run db2 [ReqSubmit 3000 21 5 (Some ''again.pdf'') 1 uploadOk])) = [sub1]"
    by simp
  from h1 h2 h3 a b show ?thesis by blast
qed

section \<open>File resolution\<close>




section \<open>Listing exams by role\<close>

text \<open>
  Claim C8, as stated, fails for the teacher role: the query of a teacher also requires
  \<^verbatim>\<open>isActive = true\<close> ("teachers see only their own active exams"), so the cancelled
  exam 2 of teacher 7 is not in the list of teacher 7.
\<close>

theorem listExams_teacher_counterexample:
  "exam2 \<in> set (exams db3) \<and> createdBy exam2 = 7
   \<and> listExams db3 Teacher 7 = Inr [exam1]
   \<and> exam2 \<notin> set [exam1]"
  by (simp add: listExams_def examQuery_def db3_def db0_def exam1_def exam2_def exam3_def)

text \<open>
  Claim C8, amended. When the accounts of the exams' creators exist, the listing
  succeeds, is sorted by \<^verbatim>\<open>createdAt\<close> with the newest first, and contains exactly: for
  a teacher, the exams whose creator is the requester and that are active; for a
  student, the active exams; for an admin, all exams.
\<close>

theorem listExams_by_role:
  assumes "list_all (\<lambda>e. createdBy e \<in> set (teachers d)) (exams d)"
  shows "\<exists>found. listExams d r uid = Inr found
           \<and> sorted (map (\<lambda>e. - createdAt e) found)
           \<and> set found =
               (if r = Teacher then {e \<in> set (exams d). createdBy e = uid \<and> isActive e}
                else if r = Student then {e \<in> set (exams d). isActive e}
                else set (exams d))"
proof -
  let ?found = "sort_key (\<lambda>e. - createdAt e) (filter (examQuery r uid) (exams d))"
  from assms have "list_all (\<lambda>e. createdBy e \<in> set (teachers d)) ?found"
    by (simp add: list_all_iff)
  then have "listExams d r uid = Inr ?found"
    by (simp add: listExams_def Let_def)
  moreover have "sorted (map (\<lambda>e. - createdAt e) ?found)"
    by simp
  moreover have "set ?found =
               (if r = Teacher then {e \<in> set (exams d). createdBy e = uid \<and> isActive e}
                else if r = Student then {e \<in> set (exams d). isActive e}
                else set (exams d))"
    by (cases r) (auto simp: examQuery_def)
  ultimately show ?thesis by blast
qed

theorem listExams_by_role_witness:
  "list_all (\<lambda>e. createdBy e \<in> set (teachers db3)) (exams db3)
   \<and> (\<exists>found. listExams db3 Teacher 7 = Inr found \<and> set found = {exam1})
   \<and> (\<exists>found. listExams db3 Teacher 8 = Inr found \<and> set found = {})
   \<and> (\<exists>found. listExams db3 Student 5 = Inr found \<and> set found = {exam1})
   \<and> (\<exists>found. listExams db3 Admin 1 = Inr found \<and> set found = {exam1, exam2, exam3})"
proof -
  have h: "list_all (\<lambda>e. createdBy e \<in> set (teachers db3)) (exams db3)"
    by (simp add: db3_def db0_def exam1_def exam2_def exam3_def)
  have ex: "exams db3 = [exam1, exam2, exam3]"
    by (simp add: db3_def)
  have fields: "createdBy exam1 = 7" "isActive exam1" "createdBy exam2 = 7" "\<not> isActive exam2"
    "createdBy exam3 = 7" "\<not> isActive exam3"
    by (simp_all add: exam1_def exam2_def exam3_def)
  have own: "{e \<in> set (exams db3). createdBy e = 7 \<and> isActive e} = {exam1}"
    and other: "{e \<in> set (exams db3). createdBy e = 8 \<and> isActive e} = {}"
    and active: "{e \<in> set (exams db3). isActive e} = {exam1}"
    using fields by (auto simp: ex)
  from listExams_by_role [OF h, of Teacher 7]
  have a: "\<exists>found. listExams db3 Teacher 7 = Inr found \<and> set found = {exam1}"
    by (auto simp: own)
  from listExams_by_role [OF h, of Teacher 8]
  have b: "\<exists>found. listExams db3 Teacher 8 = Inr found \<and> set found = {}"
    by (auto simp: other)
  from listExams_by_role [OF h, of Student 5]
  have c: "\<exists>found. listExams db3 Student 5 = Inr found \<and> set found = {exam1}"
    by (auto simp: active)
  from listExams_by_role [OF h, of Admin 1]
  have d: "\<exists>found. listExams db3 Admin 1 = Inr found \<and> set found = {exam1, exam2, exam3}"
    by (auto simp: ex)
  from h a b c d show ?thesis by blast
qed

section \<open>Cancelling and reactivating an exam\<close>




end
